theory Spec2Isabelle
  imports Main "HOL-Library.Word"
begin

unbundle bit_operations_syntax

section \<open>Python values\<close>

text \<open>
  Both functions of the repository work on what \<^verbatim>\<open>json.loads\<close> and
  \<^verbatim>\<open>req.get_json()\<close> return: untyped Python values. A value is \<^verbatim>\<open>None\<close>, a
  bool, an int, a float (kept as its IEEE-754 bit pattern, which is all the code
  ever looks at: whether it is zero), a str, a list or a dict. A dict is an
  association list in insertion order; lookup takes the first entry of a key.
  A character of a str is one \<^typ>\<open>char\<close>, standing for a code point below 256.
\<close>

datatype json =
    JNull
  | JBool bool
  | JInt int
  | JFloat "64 word"
  | JStr string
  | JArr "json list"
  | JObj "(string \<times> json) list"

datatype py_error = AttributeError | TypeError | KeyError

text \<open>Truth value testing, as \<^verbatim>\<open>not x\<close> and \<^verbatim>\<open>x or y\<close> do it.\<close>

fun truthy :: "json \<Rightarrow> bool" where
  "truthy JNull = False"
| "truthy (JBool b) = b"
| "truthy (JInt i) = (i \<noteq> 0)"
| "truthy (JFloat w) = (w AND 0x7FFFFFFFFFFFFFFF \<noteq> 0)"
| "truthy (JStr s) = (s \<noteq> [])"
| "truthy (JArr xs) = (xs \<noteq> [])"
| "truthy (JObj kvs) = (kvs \<noteq> [])"

text \<open>
  \<^verbatim>\<open>x.get(k, d)\<close>: only a dict has the method; any other value raises
  AttributeError. \<^verbatim>\<open>x.get(k)\<close> is \<^verbatim>\<open>x.get(k, None)\<close>.
\<close>

definition get_default :: "json \<Rightarrow> string \<Rightarrow> json \<Rightarrow> py_error + json" where
  "get_default x k d =
     (case x of
        JObj kvs \<Rightarrow> (case map_of kvs k of None \<Rightarrow> Inr d | Some v \<Rightarrow> Inr v)
      | _ \<Rightarrow> Inl AttributeError)"

definition get :: "json \<Rightarrow> string \<Rightarrow> py_error + json" where
  "get x k = get_default x k JNull"

text \<open>\<^verbatim>\<open>d[k] = v\<close> on a dict: an existing key keeps its place, a new one goes last.\<close>

fun dict_set :: "string \<Rightarrow> json \<Rightarrow> (string \<times> json) list \<Rightarrow> (string \<times> json) list" where
  "dict_set k v [] = [(k, v)]"
| "dict_set k v (p # ps) = (if fst p = k then (k, v) # ps else p # dict_set k v ps)"

text \<open>\<^verbatim>\<open>d.setdefault(k, v)\<close>: stores \<^verbatim>\<open>v\<close> only when the key is absent.\<close>

definition setdefault :: "string \<Rightarrow> json \<Rightarrow> (string \<times> json) list \<Rightarrow> (string \<times> json) list" where
  "setdefault k v kvs = (case map_of kvs k of None \<Rightarrow> dict_set k v kvs | Some _ \<Rightarrow> kvs)"

text \<open>
  \<^verbatim>\<open>for x in v\<close>: a list gives its elements, a str its characters, a dict its
  keys; \<^verbatim>\<open>None\<close>, bools and numbers are not iterable.
\<close>

fun py_iter :: "json \<Rightarrow> py_error + json list" where
  "py_iter (JArr xs) = Inr xs"
| "py_iter (JStr s) = Inr (map (\<lambda>c. JStr [c]) s)"
| "py_iter (JObj kvs) = Inr (map (\<lambda>p. JStr (fst p)) kvs)"
| "py_iter _ = Inl TypeError"

text \<open>
  \<^verbatim>\<open>str.lower()\<close> on code points below 256: the ASCII capitals and the Latin-1
  capitals (U+00C0 to U+00DE without the multiplication sign U+00D7) move up by 32.
\<close>

definition lower_char :: "char \<Rightarrow> char" where
  "lower_char c =
     (let n = (of_char c :: nat)
      in if (65 \<le> n \<and> n \<le> 90) \<or> (192 \<le> n \<and> n \<le> 222 \<and> n \<noteq> 215)
         then char_of (n + 32) else c)"

definition lower :: "string \<Rightarrow> string" where
  "lower s = map lower_char s"

section \<open>The agent: remediation dispatch (function\_app, \<^verbatim>\<open>_maybe_remediate\<close>)\<close>

text \<open>
  \<^verbatim>\<open>requests.post\<close> is the one effect of the dispatcher. The outside world is a
  state \<^typ>\<open>'w\<close>; a call takes the request and the world and gives back the new
  world with either the message of the exception it raised (\<open>Inl\<close>) or the
  response (\<open>Inr\<close>). A response with a non-2xx status is a response:
  \<^verbatim>\<open>raise_for_status\<close> is never called.
\<close>

record http_request =
  req_url :: string
  req_headers :: "(string \<times> string) list"
  req_json :: json
  req_timeout :: nat

record http_response =
  status_code :: int
  resp_text :: string

type_synonym 'w requests_post = "'w \<Rightarrow> http_request \<Rightarrow> (string + http_response) \<times> 'w"

text \<open>Line 211: \<^verbatim>\<open>risk = (act.get("risk") or "").lower()\<close>.\<close>

definition risk_of :: "json \<Rightarrow> py_error + string" where
  "risk_of act =
     (case get act ''risk'' of
        Inl e \<Rightarrow> Inl e
      | Inr v \<Rightarrow>
          (case (if truthy v then v else JStr []) of
             JStr s \<Rightarrow> Inr (lower s)
           | _ \<Rightarrow> Inl AttributeError))"

text \<open>Lines 213 to 216: the payload and the headers of the call.\<close>

definition remediation_request :: "string \<Rightarrow> string option \<Rightarrow> json \<Rightarrow> json \<Rightarrow> http_request" where
  "remediation_request remediation_url remediation_key name params =
     \<lparr> req_url = remediation_url,
       req_headers =
         (''Content-Type'', ''application/json'') #
         (case remediation_key of
            None \<Rightarrow> []
          | Some k \<Rightarrow> if k \<noteq> [] then [(''x-functions-key'', k)] else []),
       req_json = JObj [(''action'', name), (''params'', params)],
       req_timeout = 20 \<rparr>"

text \<open>
  Lines 209 to 235, one turn of the loop: the outcome appended to \<^verbatim>\<open>results\<close>
  and the world after it. An exception of \<^verbatim>\<open>act.get\<close> or \<^verbatim>\<open>.lower()\<close> is
  outside the \<^verbatim>\<open>try\<close> and leaves the function.
\<close>

definition remediate_action ::
  "'w requests_post \<Rightarrow> string \<Rightarrow> string option \<Rightarrow> 'w \<Rightarrow> json \<Rightarrow> py_error + json \<times> 'w" where
  "remediate_action post remediation_url remediation_key w act =
     (case get act ''name'' of
        Inl e \<Rightarrow> Inl e
      | Inr name \<Rightarrow>
     (case get_default act ''params'' (JObj []) of
        Inl e \<Rightarrow> Inl e
      | Inr params \<Rightarrow>
     (case risk_of act of
        Inl e \<Rightarrow> Inl e
      | Inr risk \<Rightarrow>
          if risk \<in> set [''low'', ''medium''] \<and> remediation_url \<noteq> [] then
            (case post w (remediation_request remediation_url remediation_key name params) of
               (Inr resp, w') \<Rightarrow>
                 Inr (JObj [(''action'', name),
                            (''status'', JInt (status_code resp)),
                            (''response'', JStr (take 300 (resp_text resp)))], w')
             | (Inl ex, w') \<Rightarrow>
                 Inr (JObj [(''action'', name),
                            (''status'', JStr ''error''),
                            (''response'', JStr ex)], w'))
          else
            Inr (JObj [(''action'', name),
                       (''status'', JStr ''skipped''),
                       (''reason'', JStr ''risk too high or remediation endpoint missing'')], w))))"

text \<open>The \<^verbatim>\<open>for\<close> loop of lines 208 to 235, with \<^verbatim>\<open>results\<close> as accumulator.\<close>

fun remediate_loop ::
  "'w requests_post \<Rightarrow> string \<Rightarrow> string option \<Rightarrow> json list \<Rightarrow> 'w \<Rightarrow> json list
     \<Rightarrow> py_error + json list \<times> 'w" where
  "remediate_loop post remediation_url remediation_key results w [] = Inr (results, w)"
| "remediate_loop post remediation_url remediation_key results w (act # acts) =
     (case remediate_action post remediation_url remediation_key w act of
        Inl e \<Rightarrow> Inl e
      | Inr (r, w') \<Rightarrow>
          remediate_loop post remediation_url remediation_key (results @ [r]) w' acts)"

definition maybe_remediate ::
  "'w requests_post \<Rightarrow> 'w \<Rightarrow> json \<Rightarrow> string \<Rightarrow> string option \<Rightarrow> py_error + json list \<times> 'w" where
  "maybe_remediate post w plan remediation_url remediation_key =
     (case get_default plan ''actions'' (JArr []) of
        Inl e \<Rightarrow> Inl e
      | Inr actions \<Rightarrow>
          (case py_iter actions of
             Inl e \<Rightarrow> Inl e
           | Inr acts \<Rightarrow> remediate_loop post remediation_url remediation_key [] w acts))"

text \<open>
  The test of line 212 has two operands. The left one, on the normalised risk
  tag alone, is the risk policy; it is named here so that it can be spoken of
  by itself.
\<close>

datatype decision = AutoExecute | RequireApproval

definition classify :: "json \<Rightarrow> py_error + decision" where
  "classify act =
     (case risk_of act of
        Inl e \<Rightarrow> Inl e
      | Inr risk \<Rightarrow>
          Inr (if risk \<in> set [''low'', ''medium''] then AutoExecute else RequireApproval))"

section \<open>The agent: appending the results to the plan (function\_app, \<^verbatim>\<open>main\<close>, step 4)\<close>

text \<open>
  \<^verbatim>\<open>f"result:{v}"\<close> formats \<^verbatim>\<open>v\<close>: a str stands for itself; what Python prints
  for any other value is left to the parameter \<open>str_other\<close>.
\<close>

definition format_value :: "(json \<Rightarrow> string) \<Rightarrow> json \<Rightarrow> string" where
  "format_value str_other v = (case v of JStr s \<Rightarrow> s | _ \<Rightarrow> str_other v)"

text \<open>
  Lines 389 to 393, the element of the comprehension for one result \<^verbatim>\<open>r\<close>.
  \<^verbatim>\<open>r['action']\<close> raises KeyError on a dict without the key and TypeError on
  a value that is not a dict.
\<close>

definition result_action :: "(json \<Rightarrow> string) \<Rightarrow> json \<Rightarrow> py_error + json" where
  "result_action str_other r =
     (case r of
        JObj kvs \<Rightarrow>
          (case map_of kvs ''action'' of
             None \<Rightarrow> Inl KeyError
           | Some a \<Rightarrow>
               Inr (JObj [(''name'', JStr (''result:'' @ format_value str_other a)),
                          (''params'', r),
                          (''risk'', JStr ''n/a'')]))
      | _ \<Rightarrow> Inl TypeError)"

fun result_actions :: "(json \<Rightarrow> string) \<Rightarrow> json list \<Rightarrow> py_error + json list" where
  "result_actions str_other [] = Inr []"
| "result_actions str_other (r # rs) =
     (case result_action str_other r of
        Inl e \<Rightarrow> Inl e
      | Inr a \<Rightarrow>
          (case result_actions str_other rs of
             Inl e \<Rightarrow> Inl e
           | Inr as \<Rightarrow> Inr (a # as)))"

text \<open>
  Lines 386 to 394. \<^verbatim>\<open>plan["actions"] += [...]\<close> reads the old value, builds
  the new list, and only then adds: to a list it appends, to anything else it
  raises TypeError.
\<close>

definition enrich_plan :: "(json \<Rightarrow> string) \<Rightarrow> json \<Rightarrow> json list \<Rightarrow> py_error + json" where
  "enrich_plan str_other plan results =
     (if results = [] then Inr plan
      else
        (case plan of
           JObj kvs \<Rightarrow>
             (let kvs1 = setdefault ''actions'' (JArr []) kvs
              in case map_of kvs1 ''actions'' of
                   None \<Rightarrow> Inl KeyError
                 | Some old \<Rightarrow>
                     (case result_actions str_other results of
                        Inl e \<Rightarrow> Inl e
                      | Inr new \<Rightarrow>
                          (case old of
                             JArr xs \<Rightarrow> Inr (JObj (dict_set ''actions'' (JArr (xs @ new)) kvs1))
                           | _ \<Rightarrow> Inl TypeError)))
         | _ \<Rightarrow> Inl AttributeError))"

text \<open>Lines 384 to 394 together: dispatch, then append what dispatch returned.\<close>

definition remediate_and_enrich ::
  "(json \<Rightarrow> string) \<Rightarrow> 'w requests_post \<Rightarrow> 'w \<Rightarrow> json \<Rightarrow> string \<Rightarrow> string option
     \<Rightarrow> py_error + json \<times> 'w" where
  "remediate_and_enrich str_other post w plan remediation_url remediation_key =
     (case maybe_remediate post w plan remediation_url remediation_key of
        Inl e \<Rightarrow> Inl e
      | Inr (results, w') \<Rightarrow>
          (case enrich_plan str_other plan results of
             Inl e \<Rightarrow> Inl e
           | Inr plan' \<Rightarrow> Inr (plan', w')))"

section \<open>The agent: reading the request (function\_app, \<^verbatim>\<open>main\<close>, lines 326 to 348)\<close>

text \<open>
  Of a request the code reads the method and \<^verbatim>\<open>get_json()\<close>, which either
  raises (\<open>None\<close>) or returns the parsed body.
\<close>

record func_request =
  req_method :: string
  req_get_json :: "json option"

definition default_question :: string where
  "default_question = ''Why did latency spike in the last 30 minutes?''"

text \<open>The default incident; \<open>now\<close> is \<^verbatim>\<open>dt.datetime.now().isoformat(timespec="seconds")\<close>.\<close>

definition default_incident :: "string \<Rightarrow> json" where
  "default_incident now =
     JObj [(''title'', JStr ''Service latency spike''),
           (''environment'', JStr ''prod''),
           (''severity'', JStr ''Sev2''),
           (''start_time_local'', JStr now),
           (''id'', JStr ''INC-XXXXX''),
           (''service_name'', JStr ''unknown-service''),
           (''region'', JStr ''unknown-region''),
           (''change_ref'', JStr ''unknown-change''),
           (''dashboard_url'', JStr ''https://portal.azure.com/''),
           (''incident_url'', JStr ''https://dev.azure.com/'')]"

definition main_body :: "func_request \<Rightarrow> json" where
  "main_body req =
     (if req_method req = ''POST''
      then (case req_get_json req of None \<Rightarrow> JObj [] | Some b \<Rightarrow> b)
      else JObj [])"

text \<open>The question and the incident context that the rest of the pipeline uses.\<close>

definition main_inputs :: "string \<Rightarrow> func_request \<Rightarrow> py_error + json \<times> json" where
  "main_inputs now req =
     (case get_default (main_body req) ''question'' (JStr default_question) of
        Inl e \<Rightarrow> Inl e
      | Inr question \<Rightarrow>
          (case get_default (main_body req) ''incident'' (default_incident now) of
             Inl e \<Rightarrow> Inl e
           | Inr incident_ctx \<Rightarrow> Inr (question, incident_ctx)))"

section \<open>The action guard (remediation, \<^verbatim>\<open>main\<close>)\<close>

definition SAFE_ACTIONS :: "string set" where
  "SAFE_ACTIONS = {''scale_db'', ''toggle_feature_flag'', ''restart_service''}"

text \<open>
  \<^verbatim>\<open>action not in SAFE_ACTIONS\<close> hashes \<^verbatim>\<open>action\<close> first: a list or a dict is
  unhashable and raises TypeError; a str is looked up; \<^verbatim>\<open>None\<close>, a bool or a
  number is hashable and equal to no str.
\<close>

fun not_in_set :: "json \<Rightarrow> string list \<Rightarrow> py_error + bool" where
  "not_in_set (JStr s) safe = Inr (s \<notin> set safe)"
| "not_in_set (JArr xs) safe = Inl TypeError"
| "not_in_set (JObj kvs) safe = Inl TypeError"
| "not_in_set _ safe = Inr True"

record http_reply =
  reply_status :: nat
  reply_mimetype :: string
  reply_body :: json

text \<open>
  The whitelist is the parameter \<open>safe\<close>: the elements of the set in the order in
  which \<^verbatim>\<open>list(SAFE_ACTIONS)\<close> gives them, which Python does not fix. The
  body of a reply is the value handed to \<^verbatim>\<open>json.dumps\<close>; a reply built without
  a status code has 200.
\<close>

definition remediation_main :: "string list \<Rightarrow> func_request \<Rightarrow> py_error + http_reply" where
  "remediation_main safe req =
     (case req_get_json req of
        None \<Rightarrow>
          Inr \<lparr> reply_status = 400, reply_mimetype = ''application/json'',
                reply_body = JObj [(''status'', JStr ''error''),
                                   (''message'', JStr ''Invalid JSON.'')] \<rparr>
      | Some data \<Rightarrow>
     (case get data ''action'' of
        Inl e \<Rightarrow> Inl e
      | Inr action \<Rightarrow>
     (case get_default data ''params'' (JObj []) of
        Inl e \<Rightarrow> Inl e
      | Inr params \<Rightarrow>
     (case (if \<not> truthy action then Inr True else not_in_set action safe) of
        Inl e \<Rightarrow> Inl e
      | Inr True \<Rightarrow>
          Inr \<lparr> reply_status = 403, reply_mimetype = ''application/json'',
                reply_body = JObj [(''status'', JStr ''denied''),
                                   (''reason'', JStr ''unsafe or unknown action''),
                                   (''allowed_actions'', JArr (map JStr safe))] \<rparr>
      | Inr False \<Rightarrow>
          Inr \<lparr> reply_status = 200, reply_mimetype = ''application/json'',
                reply_body = JObj [(''status'', JStr ''ok''),
                                   (''action'', action),
                                   (''params'', params),
                                   (''message'', JStr ''Action executed (simulation).'')] \<rparr>))))"

section \<open>Notions used to state the properties\<close>

text \<open>
  An action that the loop body handles without raising: a dict whose risk tag
  is absent, falsy or a str.
\<close>

definition dispatchable :: "json \<Rightarrow> bool" where
  "dispatchable act =
     (case act of
        JObj kvs \<Rightarrow>
          (case map_of kvs ''risk'' of
             None \<Rightarrow> True
           | Some v \<Rightarrow> (case v of JStr s \<Rightarrow> True | _ \<Rightarrow> \<not> truthy v))
      | _ \<Rightarrow> False)"

text \<open>What \<^verbatim>\<open>act.get("name")\<close> and \<^verbatim>\<open>act.get("params", {})\<close> give on a dict.\<close>

definition action_name :: "json \<Rightarrow> json" where
  "action_name act = (case get act ''name'' of Inr v \<Rightarrow> v | Inl e \<Rightarrow> JNull)"

definition action_params :: "json \<Rightarrow> json" where
  "action_params act = (case get_default act ''params'' (JObj []) of Inr v \<Rightarrow> v | Inl e \<Rightarrow> JNull)"

text \<open>The three outcomes of lines 219 to 235, by name.\<close>

definition executed_outcome :: "json \<Rightarrow> http_response \<Rightarrow> json" where
  "executed_outcome name resp =
     JObj [(''action'', name),
           (''status'', JInt (status_code resp)),
           (''response'', JStr (take 300 (resp_text resp)))]"

definition error_outcome :: "json \<Rightarrow> string \<Rightarrow> json" where
  "error_outcome name ex =
     JObj [(''action'', name), (''status'', JStr ''error''), (''response'', JStr ex)]"

definition skipped_outcome :: "json \<Rightarrow> json" where
  "skipped_outcome name =
     JObj [(''action'', name),
           (''status'', JStr ''skipped''),
           (''reason'', JStr ''risk too high or remediation endpoint missing'')]"

text \<open>The call is made: both operands of the test of line 212 hold.\<close>

definition calls_executor :: "string \<Rightarrow> json \<Rightarrow> bool" where
  "calls_executor remediation_url act =
     (classify act = Inr AutoExecute \<and> remediation_url \<noteq> [])"

section \<open>Example inputs\<close>

definition whitelist_order :: "string list" where
  "whitelist_order = [''scale_db'', ''toggle_feature_flag'', ''restart_service'']"

text \<open>An executor that cannot be reached, one that answers 403, one whose
  failure message has 301 characters, and one whose second call times out.\<close>

definition refusing_post :: "unit requests_post" where
  "refusing_post w r = (Inl ''connection refused'', w)"

definition denying_post :: "unit requests_post" where
  "denying_post w r = (Inr \<lparr> status_code = 403, resp_text = ''denied'' \<rparr>, w)"

definition verbose_failure_post :: "unit requests_post" where
  "verbose_failure_post w r = (Inl (replicate 301 (CHR ''x'')), w)"

definition second_call_fails_post :: "nat requests_post" where
  "second_call_fails_post w r =
     (if w = 1 then Inl ''timed out''
      else Inr \<lparr> status_code = 200, resp_text = ''ok'' \<rparr>, Suc w)"

definition low_risk_action :: json where
  "low_risk_action =
     JObj [(''name'', JStr ''restart_service''), (''params'', JObj []), (''risk'', JStr ''low'')]"

definition number_risk_action :: json where
  "number_risk_action =
     JObj [(''name'', JStr ''restart_service''), (''params'', JObj []), (''risk'', JInt 1)]"

definition list_action_request :: func_request where
  "list_action_request =
     \<lparr> req_method = ''POST'',
       req_get_json = Some (JObj [(''action'', JArr [JStr ''scale_db''])]) \<rparr>"

text \<open>A formatter that is right on \<^verbatim>\<open>None\<close>; the examples format nothing else.\<close>

definition str_of_none :: "json \<Rightarrow> string" where
  "str_of_none v = ''None''"

definition high_risk_action :: json where
  "high_risk_action =
     JObj [(''name'', JStr ''scale_db''), (''params'', JObj []), (''risk'', JStr ''high'')]"

text \<open>A plan with a low-risk, a high-risk and an untagged action.\<close>

definition mixed_plan :: json where
  "mixed_plan =
     JObj [(''rca_summary'', JStr ''pool exhausted''),
           (''confidence'', JFloat 0x3FE8000000000000),
           (''actions'',
              JArr [low_risk_action,
                    JObj [(''name'', JStr ''scale_db''), (''risk'', JStr ''HIGH'')],
                    JObj [(''name'', JStr ''toggle_feature_flag''), (''params'', JObj [(''flag'', JStr ''x'')])]]),
           (''evidence'', JObj [])]"

text \<open>A plan of three actions that are all auto-executable.\<close>

definition three_action_plan :: json where
  "three_action_plan =
     JObj [(''rca_summary'', JStr ''connection pool exhausted''),
           (''confidence'', JFloat 0x3FE8000000000000),
           (''actions'',
              JArr [low_risk_action,
                    JObj [(''name'', JStr ''scale_db''),
                          (''params'', JObj [(''tier'', JStr ''S3'')]),
                          (''risk'', JStr ''Medium'')],
                    JObj [(''name'', JStr ''toggle_feature_flag''), (''risk'', JStr ''low'')]]),
           (''evidence'', JObj [])]"

text \<open>A plan with one high-risk action, before and after its one outcome is appended.\<close>

definition reviewed_plan :: json where
  "reviewed_plan =
     JObj [(''rca_summary'', JStr ''disk full''),
           (''confidence'', JFloat 0x3FE0000000000000),
           (''actions'', JArr [high_risk_action]),
           (''evidence'', JObj [(''links'', JArr [])])]"

definition reviewed_plan_enriched :: json where
  "reviewed_plan_enriched =
     JObj [(''rca_summary'', JStr ''disk full''),
           (''confidence'', JFloat 0x3FE0000000000000),
           (''actions'',
              JArr [high_risk_action,
                    JObj [(''name'', JStr ''result:scale_db''),
                          (''params'', skipped_outcome (JStr ''scale_db'')),
                          (''risk'', JStr ''n/a'')]]),
           (''evidence'', JObj [(''links'', JArr [])])]"

text \<open>
  A plan with the one low-risk action, and two plans in which that action is
  followed by the action whose risk tag is the number 1.
\<close>

definition single_action_plan :: json where
  "single_action_plan = JObj [(''actions'', JArr [low_risk_action])]"


definition malformed_middle_plan :: json where
  "malformed_middle_plan =
     JObj [(''actions'',
              JArr [low_risk_action,
                    number_risk_action,
                    JObj [(''name'', JStr ''toggle_feature_flag''), (''risk'', JStr ''low'')]])]"

section \<open>Basic facts\<close>

lemma lower_literals:
  "lower ''low'' = ''low''" "lower ''medium'' = ''medium''" "lower ''high'' = ''high''"
  "lower ''n/a'' = ''n/a''" "lower [] = []" "lower ''Medium'' = ''medium''"
  by code_simp+

lemma get_JObj: "get (JObj kvs) k = Inr (case map_of kvs k of None \<Rightarrow> JNull | Some v \<Rightarrow> v)"
  by (simp add: get_def get_default_def split: option.splits)

lemma get_default_JObj:
  "get_default (JObj kvs) k d = Inr (case map_of kvs k of None \<Rightarrow> d | Some v \<Rightarrow> v)"
  by (simp add: get_default_def split: option.splits)

lemma dispatchable_JObj: "dispatchable act \<Longrightarrow> \<exists>kvs. act = JObj kvs"
  by (cases act) (simp_all add: dispatchable_def)

lemma risk_of_total_iff: "(\<exists>s. risk_of act = Inr s) = dispatchable act"
  by (cases act) (auto simp: risk_of_def dispatchable_def get_def get_default_def split: option.splits json.splits)

lemma classify_total_iff: "(\<exists>d. classify act = Inr d) = dispatchable act"
  unfolding risk_of_total_iff [symmetric]
  by (auto simp: classify_def split: sum.splits)

lemma classify_rule:
  assumes "dispatchable act"
  shows "\<exists>risk. risk_of act = Inr risk \<and>
           classify act = Inr (if risk = ''low'' \<or> risk = ''medium'' then AutoExecute
                               else RequireApproval)"
proof -
  from assms obtain s where "risk_of act = Inr s"
    using risk_of_total_iff by blast
  then show ?thesis by (simp add: classify_def)
qed

lemma risk_of_str:
  "map_of kvs ''risk'' = Some (JStr s) \<Longrightarrow> risk_of (JObj kvs) = Inr (lower s)"
  by (simp add: risk_of_def get_JObj lower_def)

lemma risk_of_falsy:
  "map_of kvs ''risk'' = None \<or> (\<exists>v. map_of kvs ''risk'' = Some v \<and> \<not> truthy v)
     \<Longrightarrow> risk_of (JObj kvs) = Inr []"
  by (auto simp: risk_of_def get_JObj lower_def)

lemma outcome_fields:
  "get (executed_outcome name resp) ''action'' = Inr name"
  "get (executed_outcome name resp) ''status'' = Inr (JInt (status_code resp))"
  "get (executed_outcome name resp) ''response'' = Inr (JStr (take 300 (resp_text resp)))"
  "get (error_outcome name ex) ''action'' = Inr name"
  "get (error_outcome name ex) ''status'' = Inr (JStr ''error'')"
  "get (error_outcome name ex) ''response'' = Inr (JStr ex)"
  "get (skipped_outcome name) ''action'' = Inr name"
  "get (skipped_outcome name) ''status'' = Inr (JStr ''skipped'')"
  "get (skipped_outcome name) ''reason'' =
     Inr (JStr ''risk too high or remediation endpoint missing'')"
  by (simp_all add: executed_outcome_def error_outcome_def skipped_outcome_def get_JObj)

lemma low_risk_action_facts:
  "dispatchable low_risk_action"
  "classify low_risk_action = Inr AutoExecute"
  "action_name low_risk_action = JStr ''restart_service''"
  "action_params low_risk_action = JObj []"
  by (simp_all add: dispatchable_def low_risk_action_def classify_def risk_of_def get_JObj
      get_default_JObj lower_literals action_name_def action_params_def)

section \<open>One turn of the dispatch loop\<close>

text \<open>
  On a dispatchable action the turn is one of three outcomes; on any other
  action it raises, whatever the endpoint and the executor do.
\<close>

lemma remediate_action_dispatchable:
  assumes "dispatchable act"
  shows "remediate_action post url key w act =
     (if calls_executor url act then
        (case post w (remediation_request url key (action_name act) (action_params act)) of
           (Inr resp, w') \<Rightarrow> Inr (executed_outcome (action_name act) resp, w')
         | (Inl ex, w') \<Rightarrow> Inr (error_outcome (action_name act) ex, w'))
      else Inr (skipped_outcome (action_name act), w))"
proof -
  from assms obtain kvs where act: "act = JObj kvs"
    using dispatchable_JObj by blast
  from assms obtain s where risk: "risk_of act = Inr s"
    using risk_of_total_iff by blast
  have n: "get act ''name'' = Inr (action_name act)"
    by (simp add: act action_name_def get_JObj)
  have p: "get_default act ''params'' (JObj []) = Inr (action_params act)"
    by (simp add: act action_params_def get_default_JObj)
  show ?thesis
    by (simp add: remediate_action_def n p risk calls_executor_def classify_def
        executed_outcome_def error_outcome_def skipped_outcome_def
        split: prod.splits sum.splits)
qed

lemma remediate_action_raises:
  assumes "\<not> dispatchable act"
  shows "remediate_action post url key w act = Inl AttributeError"
  using assms
  by (cases act) (auto simp: remediate_action_def dispatchable_def risk_of_def get_def get_default_def split: option.splits json.splits if_splits)

lemma remediate_action_facts:
  assumes "dispatchable act"
  shows "\<exists>r w'. remediate_action post url key w act = Inr (r, w') \<and>
           get r ''action'' = Inr (action_name act) \<and>
           (get r ''status'' = Inr (JStr ''error'')) =
             (calls_executor url act \<and>
              isl (fst (post w (remediation_request url key (action_name act) (action_params act)))))"
proof (cases "calls_executor url act")
  case False
  then show ?thesis
    by (simp add: remediate_action_dispatchable [OF assms] outcome_fields)
next
  case True
  obtain res w1 where p: "post w (remediation_request url key (action_name act) (action_params act)) = (res, w1)"
    by (cases "post w (remediation_request url key (action_name act) (action_params act))")
  show ?thesis
    by (cases res) (simp_all add: remediate_action_dispatchable [OF assms] True p outcome_fields)
qed

lemma remediate_action_outcome_dict:
  assumes "remediate_action post url key w act = Inr (r, w')"
  shows "\<exists>d a. r = JObj d \<and> map_of d ''action'' = Some a"
proof -
  have d: "dispatchable act"
    using assms remediate_action_raises [of act post url key w] by auto
  show ?thesis
    using assms unfolding remediate_action_dispatchable [OF d]
    by (auto simp: executed_outcome_def error_outcome_def skipped_outcome_def
        split: if_splits prod.splits sum.splits)
qed

section \<open>The dispatch loop\<close>

lemma remediate_loop_acc:
  "remediate_loop post url key acc w acts =
     (case remediate_loop post url key [] w acts of
        Inl e \<Rightarrow> Inl e
      | Inr (rs, w') \<Rightarrow> Inr (acc @ rs, w'))"
proof (induction acts arbitrary: acc w)
  case Nil
  show ?case by simp
next
  case (Cons a acts)
  show ?case
  proof (cases "remediate_action post url key w a")
    case (Inl e)
    then show ?thesis by simp
  next
    case (Inr p)
    obtain r w1 where p: "p = (r, w1)" by (cases p)
    have l: "remediate_loop post url key (acc @ [r]) w1 acts =
        (case remediate_loop post url key [] w1 acts of
           Inl e \<Rightarrow> Inl e | Inr (rs, w') \<Rightarrow> Inr ((acc @ [r]) @ rs, w'))"
      by (rule Cons.IH)
    have r: "remediate_loop post url key [r] w1 acts =
        (case remediate_loop post url key [] w1 acts of
           Inl e \<Rightarrow> Inl e | Inr (rs, w') \<Rightarrow> Inr ([r] @ rs, w'))"
      by (rule Cons.IH)
    show ?thesis
      by (simp add: Inr p l r split: sum.splits prod.splits)
  qed
qed

lemma remediate_loop_Cons:
  "remediate_loop post url key [] w (a # acts) =
     (case remediate_action post url key w a of
        Inl e \<Rightarrow> Inl e
      | Inr (r, w1) \<Rightarrow>
          (case remediate_loop post url key [] w1 acts of
             Inl e \<Rightarrow> Inl e
           | Inr (rs, w2) \<Rightarrow> Inr (r # rs, w2)))"
proof (cases "remediate_action post url key w a")
  case (Inl e)
  then show ?thesis by simp
next
  case (Inr p)
  obtain r w1 where p: "p = (r, w1)" by (cases p)
  show ?thesis
    by (simp add: Inr p remediate_loop_acc [of post url key "[r]"] split: sum.splits prod.splits)
qed

lemma remediate_loop_append:
  "remediate_loop post url key [] w (xs @ ys) =
     (case remediate_loop post url key [] w xs of
        Inl e \<Rightarrow> Inl e
      | Inr (rs1, w1) \<Rightarrow>
          (case remediate_loop post url key [] w1 ys of
             Inl e \<Rightarrow> Inl e
           | Inr (rs2, w2) \<Rightarrow> Inr (rs1 @ rs2, w2)))"
proof (induction xs arbitrary: w)
  case Nil
  show ?case by (simp split: sum.splits prod.splits)
next
  case (Cons a xs)
  show ?case
    by (simp only: append_Cons remediate_loop_Cons Cons.IH)
       (simp split: sum.splits prod.splits)
qed

lemma remediate_loop_length:
  "remediate_loop post url key [] w acts = Inr (rs, w') \<Longrightarrow> length rs = length acts"
proof (induction acts arbitrary: w rs)
  case Nil
  then show ?case by simp
next
  case (Cons a acts)
  then show ?case
    by (auto simp: remediate_loop_Cons simp del: remediate_loop.simps split: sum.splits prod.splits)
qed

lemma remediate_loop_total:
  assumes "\<forall>a\<in>set acts. dispatchable a"
  shows "\<exists>rs w'. remediate_loop post url key [] w acts = Inr (rs, w')"
  using assms
proof (induction acts arbitrary: w)
  case Nil
  show ?case by simp
next
  case (Cons a acts)
  from Cons.prems have "dispatchable a" by simp
  from remediate_action_facts [OF this, of post url key w]
  obtain r w1 where r: "remediate_action post url key w a = Inr (r, w1)" by blast
  from Cons.IH [of w1] Cons.prems
  obtain rs w2 where "remediate_loop post url key [] w1 acts = Inr (rs, w2)" by auto
  then show ?case
    by (simp add: remediate_loop_Cons r del: remediate_loop.simps)
qed

lemma remediate_loop_nth:
  assumes "remediate_loop post url key [] w acts = Inr (rs, w')" and "i < length acts"
  shows "\<exists>wi wj. remediate_loop post url key [] w (take i acts) = Inr (take i rs, wi) \<and>
                 remediate_action post url key wi (acts ! i) = Inr (rs ! i, wj)"
proof -
  have split: "acts = take i acts @ acts ! i # drop (Suc i) acts"
    using assms(2) by (simp add: id_take_nth_drop)
  from assms(1) have "remediate_loop post url key [] w (take i acts @ acts ! i # drop (Suc i) acts)
      = Inr (rs, w')"
    using split by simp
  then obtain rs1 wi rs2 where
    pre: "remediate_loop post url key [] w (take i acts) = Inr (rs1, wi)" and
    suf: "remediate_loop post url key [] wi (acts ! i # drop (Suc i) acts) = Inr (rs2, w')" and
    rs: "rs = rs1 @ rs2"
    by (auto simp: remediate_loop_append split: sum.splits prod.splits)
  from suf obtain r wj rs3 where
    one: "remediate_action post url key wi (acts ! i) = Inr (r, wj)" and
    rs2: "rs2 = r # rs3"
    by (auto simp: remediate_loop_Cons simp del: remediate_loop.simps split: sum.splits prod.splits)
  from remediate_loop_length [OF pre] assms(2) have len: "length rs1 = i"
    by simp
  from len rs rs2 have "take i rs = rs1" "rs ! i = r"
    by (auto simp: nth_append)
  with pre one show ?thesis by simp
qed

lemma remediate_loop_not_called:
  assumes "\<forall>a\<in>set acts. dispatchable a \<and> \<not> calls_executor url a"
  shows "remediate_loop post url key [] w acts =
           Inr (map (\<lambda>a. skipped_outcome (action_name a)) acts, w)"
  using assms
proof (induction acts)
  case Nil
  show ?case by simp
next
  case (Cons a acts)
  from Cons.prems have "remediate_action post url key w a = Inr (skipped_outcome (action_name a), w)"
    by (simp add: remediate_action_dispatchable)
  with Cons show ?case
    by (simp add: remediate_loop_Cons del: remediate_loop.simps)
qed

lemma remediate_loop_Inr:
  assumes "remediate_loop post url key [] w acts = Inr (rs, w')"
  shows "(\<forall>a\<in>set acts. dispatchable a) \<and>
         (\<forall>r\<in>set rs. \<exists>d a. r = JObj d \<and> map_of d ''action'' = Some a)"
  using assms
proof (induction acts arbitrary: w rs)
  case Nil
  then show ?case by simp
next
  case (Cons a acts)
  from Cons.prems obtain r w1 rs1 where
    one: "remediate_action post url key w a = Inr (r, w1)" and
    rest: "remediate_loop post url key [] w1 acts = Inr (rs1, w')" and
    rs: "rs = r # rs1"
    by (auto simp: remediate_loop_Cons simp del: remediate_loop.simps
        split: sum.splits prod.splits)
  have "dispatchable a"
    using one remediate_action_raises [of a post url key w] by auto
  with Cons.IH [OF rest] remediate_action_outcome_dict [OF one] rs show ?case
    by simp
qed

lemma py_iter_dispatchable:
  assumes "py_iter v = Inr acts" and "acts \<noteq> []" and "\<forall>a\<in>set acts. dispatchable a"
  shows "v = JArr acts"
proof (cases v)
  case (JStr s)
  with assms show ?thesis
    by (cases s) (auto simp: dispatchable_def)
next
  case (JObj kvs)
  with assms show ?thesis
    by (cases kvs) (auto simp: dispatchable_def)
qed (use assms in auto)

section \<open>Risk policy\<close>

text \<open>
  On every action that is a dict whose risk tag is absent, falsy or a str, the
  policy is as described: the tag is lowered, and the action is auto-executed
  exactly when the lowered tag is \<^verbatim>\<open>low\<close> or \<^verbatim>\<open>medium\<close>
  (\<open>classify_rule\<close>, \<open>risk_of_str\<close>, \<open>risk_of_falsy\<close>). Outside
  that domain the policy is not total (\<open>classify_total_iff\<close>).
\<close>

text \<open>
  Claim C1. The risk policy should classify every action without raising,
  with any unrecognised risk value requiring approval. A risk tag that is a
  non-zero number is truthy and has no \<^verbatim>\<open>lower\<close> method: classification
  raises AttributeError, and the exception leaves the dispatcher, so the
  low-risk action listed before it gets no outcome either.
\<close>

theorem number_risk_aborts_dispatch:
  "classify number_risk_action = Inl AttributeError \<and>
   maybe_remediate post w (JObj [(''actions'', JArr [low_risk_action, number_risk_action])])
     remediation_url remediation_key = Inl AttributeError"
  by (simp add: maybe_remediate_def get_default_def classify_def risk_of_def
      number_risk_action_def low_risk_action_def get_def remediate_action_def lower_literals
      split: prod.splits sum.splits)

section \<open>Dispatch without an endpoint\<close>

text \<open>
  Claim C5, as stated, at a plan with one low-risk action and the empty
  endpoint: the action is skipped, but the reason recorded is not a reason of
  its own for the missing endpoint. It is the one string the code has for
  every skip, which puts the risk first.
\<close>

theorem endpoint_missing_reason_counterexample:
  "maybe_remediate refusing_post () single_action_plan [] None =
     Inr ([JObj [(''action'', JStr ''restart_service''),
                 (''status'', JStr ''skipped''),
                 (''reason'', JStr ''risk too high or remediation endpoint missing'')]], ()) \<and>
   ''risk too high or remediation endpoint missing'' \<noteq> ''remediation endpoint missing''"
  by (simp add: maybe_remediate_def single_action_plan_def low_risk_action_def get_JObj
      get_default_JObj remediate_action_def risk_of_def lower_literals)

text \<open>
  Claim C5, amended. With the empty endpoint, every action of a plan whose
  actions are all dispatchable is recorded as skipped, whatever its risk tag
  says, and no request is sent (the world is unchanged). The reason recorded
  is \<^verbatim>\<open>risk too high or remediation endpoint missing\<close>. A plan whose
  actions all require approval gets the very same outcomes when the endpoint
  is set: the record does not tell a missing endpoint from a risk skip.
\<close>

theorem endpoint_missing_skips_every_action:
  assumes "get_default plan ''actions'' (JArr []) = Inr v"
    and "py_iter v = Inr acts"
    and "\<forall>a\<in>set acts. dispatchable a"
  shows "maybe_remediate post w plan [] remediation_key =
           Inr (map (\<lambda>a. skipped_outcome (action_name a)) acts, w) \<and>
         (\<forall>a\<in>set acts.
            get (skipped_outcome (action_name a)) ''status'' = Inr (JStr ''skipped'') \<and>
            get (skipped_outcome (action_name a)) ''reason'' =
              Inr (JStr ''risk too high or remediation endpoint missing'')) \<and>
         ((\<forall>a\<in>set acts. classify a = Inr RequireApproval) \<longrightarrow>
            maybe_remediate post w plan remediation_url remediation_key =
            maybe_remediate post w plan [] remediation_key)"
proof -
  from assms(3) have "\<forall>a\<in>set acts. dispatchable a \<and> \<not> calls_executor [] a"
    by (simp add: calls_executor_def)
  from remediate_loop_not_called [OF this]
  have none: "maybe_remediate post w plan [] remediation_key =
           Inr (map (\<lambda>a. skipped_outcome (action_name a)) acts, w)"
    by (simp add: maybe_remediate_def assms(1,2))
  have same: "maybe_remediate post w plan remediation_url remediation_key =
              maybe_remediate post w plan [] remediation_key"
    if "\<forall>a\<in>set acts. classify a = Inr RequireApproval"
  proof -
    from that assms(3)
    have "\<forall>a\<in>set acts. dispatchable a \<and> \<not> calls_executor remediation_url a"
      by (simp add: calls_executor_def)
    from remediate_loop_not_called [OF this] none show ?thesis
      by (simp add: maybe_remediate_def assms(1,2))
  qed
  from none same show ?thesis
    by (simp add: outcome_fields)
qed

theorem endpoint_missing_skips_every_action_witness:
  "dispatchable low_risk_action \<and>
   dispatchable (JObj [(''name'', JStr ''scale_db''), (''risk'', JStr ''HIGH'')]) \<and>
   dispatchable (JObj [(''name'', JStr ''toggle_feature_flag''),
                       (''params'', JObj [(''flag'', JStr ''x'')])]) \<and>
   maybe_remediate refusing_post () mixed_plan [] None =
     Inr ([skipped_outcome (JStr ''restart_service''),
           skipped_outcome (JStr ''scale_db''),
           skipped_outcome (JStr ''toggle_feature_flag'')], ())"
proof -
  let ?acts = "[low_risk_action,
                JObj [(''name'', JStr ''scale_db''), (''risk'', JStr ''HIGH'')],
                JObj [(''name'', JStr ''toggle_feature_flag''), (''params'', JObj [(''flag'', JStr ''x'')])]]"
  have a: "get_default mixed_plan ''actions'' (JArr []) = Inr (JArr ?acts)"
    by (simp add: mixed_plan_def get_default_JObj)
  have b: "py_iter (JArr ?acts) = Inr ?acts"
    by simp
  have c: "\<forall>a\<in>set ?acts. dispatchable a"
    by (simp add: low_risk_action_facts) (simp add: dispatchable_def)
  from endpoint_missing_skips_every_action [OF a b c, of refusing_post "()" None] c
  show ?thesis
    by (simp add: low_risk_action_def action_name_def get_JObj)
qed

section \<open>Failure isolation\<close>

text \<open>
  For a plan whose actions are all dispatchable, and for every behaviour of
  the executor, dispatch returns one outcome per action in the order of the
  actions. The outcome at position \<open>i\<close> is the outcome of the turn for
  action \<open>i\<close>, taken in the world that the turns before it left; it
  carries the name of that action, and its status is \<^verbatim>\<open>error\<close> exactly
  when the call for that action was made and raised.
\<close>

lemma dispatch_outcomes_in_order:
  assumes "get_default plan ''actions'' (JArr []) = Inr v"
    and "py_iter v = Inr acts"
    and "\<forall>a\<in>set acts. dispatchable a"
  shows "\<exists>rs w'. maybe_remediate post w plan url key = Inr (rs, w') \<and>
           length rs = length acts \<and>
           (\<forall>i<length acts. \<exists>wi wj.
              remediate_loop post url key [] w (take i acts) = Inr (take i rs, wi) \<and>
              remediate_action post url key wi (acts ! i) = Inr (rs ! i, wj) \<and>
              get (rs ! i) ''action'' = Inr (action_name (acts ! i)) \<and>
              (get (rs ! i) ''status'' = Inr (JStr ''error'')) =
                (calls_executor url (acts ! i) \<and>
                 isl (fst (post wi (remediation_request url key
                                      (action_name (acts ! i)) (action_params (acts ! i)))))))"
proof -
  from remediate_loop_total [OF assms(3), of post url key w]
  obtain rs w' where loop: "remediate_loop post url key [] w acts = Inr (rs, w')"
    by blast
  have run: "maybe_remediate post w plan url key = Inr (rs, w')"
    by (simp add: maybe_remediate_def assms(1,2) loop)
  have len: "length rs = length acts"
    by (rule remediate_loop_length [OF loop])
  have "\<exists>wi wj.
          remediate_loop post url key [] w (take i acts) = Inr (take i rs, wi) \<and>
          remediate_action post url key wi (acts ! i) = Inr (rs ! i, wj) \<and>
          get (rs ! i) ''action'' = Inr (action_name (acts ! i)) \<and>
          (get (rs ! i) ''status'' = Inr (JStr ''error'')) =
            (calls_executor url (acts ! i) \<and>
             isl (fst (post wi (remediation_request url key
                                  (action_name (acts ! i)) (action_params (acts ! i))))))"
    if i: "i < length acts" for i
  proof -
    from remediate_loop_nth [OF loop i]
    obtain wi wj where
      pre: "remediate_loop post url key [] w (take i acts) = Inr (take i rs, wi)" and
      one: "remediate_action post url key wi (acts ! i) = Inr (rs ! i, wj)"
      by blast
    from assms(3) i have "dispatchable (acts ! i)"
      by simp
    from remediate_action_facts [OF this, of post url key wi] one
    have "get (rs ! i) ''action'' = Inr (action_name (acts ! i)) \<and>
          (get (rs ! i) ''status'' = Inr (JStr ''error'')) =
            (calls_executor url (acts ! i) \<and>
             isl (fst (post wi (remediation_request url key
                                  (action_name (acts ! i)) (action_params (acts ! i))))))"
      by auto
    with pre one show ?thesis by blast
  qed
  with run len show ?thesis by blast
qed

lemma dispatch_outcomes_in_order_example:
  "dispatchable low_risk_action \<and>
   dispatchable (JObj [(''name'', JStr ''scale_db''),
                       (''params'', JObj [(''tier'', JStr ''S3'')]),
                       (''risk'', JStr ''Medium'')]) \<and>
   dispatchable (JObj [(''name'', JStr ''toggle_feature_flag''), (''risk'', JStr ''low'')]) \<and>
   maybe_remediate second_call_fails_post 0 three_action_plan ''https://remediation.example/api'' None =
     Inr ([JObj [(''action'', JStr ''restart_service''), (''status'', JInt 200),
                 (''response'', JStr ''ok'')],
           JObj [(''action'', JStr ''scale_db''), (''status'', JStr ''error''),
                 (''response'', JStr ''timed out'')],
           JObj [(''action'', JStr ''toggle_feature_flag''), (''status'', JInt 200),
                 (''response'', JStr ''ok'')]], 3)"
proof -
  let ?acts = "[low_risk_action,
               JObj [(''name'', JStr ''scale_db''),
                     (''params'', JObj [(''tier'', JStr ''S3'')]),
                     (''risk'', JStr ''Medium'')],
               JObj [(''name'', JStr ''toggle_feature_flag''), (''risk'', JStr ''low'')]]"
  have a: "get_default three_action_plan ''actions'' (JArr []) = Inr (JArr ?acts)"
    by (simp add: three_action_plan_def get_default_JObj)
  have b: "py_iter (JArr ?acts) = Inr ?acts"
    by simp
  have c: "\<forall>a\<in>set ?acts. dispatchable a"
    by (simp add: dispatchable_def low_risk_action_def)
  have run: "maybe_remediate second_call_fails_post 0 three_action_plan
      ''https://remediation.example/api'' None =
     Inr ([JObj [(''action'', JStr ''restart_service''), (''status'', JInt 200),
                 (''response'', JStr ''ok'')],
           JObj [(''action'', JStr ''scale_db''), (''status'', JStr ''error''),
                 (''response'', JStr ''timed out'')],
           JObj [(''action'', JStr ''toggle_feature_flag''), (''status'', JInt 200),
                 (''response'', JStr ''ok'')]], 3)"
    by (simp add: maybe_remediate_def a remediate_action_def low_risk_action_def get_JObj
        get_default_JObj risk_of_def lower_literals second_call_fails_post_def
        eval_nat_numeral)
  from dispatch_outcomes_in_order [OF a b c, of second_call_fails_post 0
      "''https://remediation.example/api''" None]
  show ?thesis
    using c run by simp
qed

text \<open>
  Claim C6. Dispatch should return one outcome per action for every plan, a
  failure at one action leaving the others recorded. In the plan below the
  call for the first action fails and, alone, is recorded as an
  \<^verbatim>\<open>error\<close> outcome; the second action has the risk tag 1, whose
  lowering raises outside the \<^verbatim>\<open>try\<close>: dispatch returns no outcome at
  all, neither the error record already made nor one for the third action.
\<close>

theorem malformed_action_discards_outcomes:
  "maybe_remediate refusing_post () single_action_plan ''https://remediation.example/api'' None =
     Inr ([JObj [(''action'', JStr ''restart_service''),
                 (''status'', JStr ''error''),
                 (''response'', JStr ''connection refused'')]], ()) \<and>
   maybe_remediate refusing_post () malformed_middle_plan ''https://remediation.example/api'' None =
     Inl AttributeError"
  by (simp add: maybe_remediate_def single_action_plan_def malformed_middle_plan_def
      low_risk_action_def number_risk_action_def get_def get_default_def remediate_action_def
      risk_of_def lower_literals refusing_post_def)

section \<open>Responses of the executor\<close>

text \<open>
  One turn of the loop on a dispatchable action: when the call is made and the
  executor answers, whatever the status code, the outcome carries that code
  as a number and the first 300 characters of the body; the status of the
  outcome is \<^verbatim>\<open>error\<close> exactly when the call was made and raised.
\<close>

lemma remediate_action_response:
  assumes "dispatchable act"
  shows "\<exists>r w'. remediate_action post url key w act = Inr (r, w') \<and>
           (get r ''status'' = Inr (JStr ''error'')) =
             (calls_executor url act \<and>
              isl (fst (post w (remediation_request url key (action_name act) (action_params act))))) \<and>
           (\<forall>resp w1. calls_executor url act \<and>
               post w (remediation_request url key (action_name act) (action_params act)) = (Inr resp, w1)
               \<longrightarrow> r = executed_outcome (action_name act) resp \<and> w' = w1 \<and>
                   get r ''status'' = Inr (JInt (status_code resp)) \<and>
                   get r ''response'' = Inr (JStr (take 300 (resp_text resp))))"
proof -
  from remediate_action_facts [OF assms, of post url key w]
  obtain r w' where r: "remediate_action post url key w act = Inr (r, w')"
    and e: "(get r ''status'' = Inr (JStr ''error'')) =
             (calls_executor url act \<and>
              isl (fst (post w (remediation_request url key (action_name act) (action_params act)))))"
    by blast
  have "r = executed_outcome (action_name act) resp \<and> w' = w1"
    if "calls_executor url act"
      and "post w (remediation_request url key (action_name act) (action_params act)) = (Inr resp, w1)"
    for resp w1
    using r that by (simp add: remediate_action_dispatchable [OF assms])
  then show ?thesis
    using r e by (auto simp: outcome_fields)
qed

lemma remediate_action_response_example:
  "dispatchable low_risk_action \<and>
   remediate_action denying_post ''https://remediation.example/api'' None () low_risk_action =
     Inr (JObj [(''action'', JStr ''restart_service''),
                (''status'', JInt 403),
                (''response'', JStr ''denied'')], ())"
proof -
  have h: "dispatchable low_risk_action"
    by (rule low_risk_action_facts)
  have c: "calls_executor ''https://remediation.example/api'' low_risk_action"
    by (simp add: calls_executor_def low_risk_action_facts)
  from remediate_action_response [OF h, of denying_post "''https://remediation.example/api''" None "()"]
  obtain r w' where
    r: "remediate_action denying_post ''https://remediation.example/api'' None () low_risk_action = Inr (r, w')"
    and x: "\<forall>resp w1. calls_executor ''https://remediation.example/api'' low_risk_action \<and>
               denying_post () (remediation_request ''https://remediation.example/api'' None
                  (action_name low_risk_action) (action_params low_risk_action)) = (Inr resp, w1)
               \<longrightarrow> r = executed_outcome (action_name low_risk_action) resp \<and> w' = w1 \<and>
                   get r ''status'' = Inr (JInt (status_code resp)) \<and>
                   get r ''response'' = Inr (JStr (take 300 (resp_text resp)))"
    by blast
  from x c have "r = executed_outcome (action_name low_risk_action)
      \<lparr> status_code = 403, resp_text = ''denied'' \<rparr>"
    by (simp add: denying_post_def)
  then show ?thesis
    using h r by (simp add: executed_outcome_def low_risk_action_facts)
qed


section \<open>Outcome detail\<close>

lemma executed_detail_bounded:
  "executed_outcome name resp = JObj [(''action'', name), (''status'', c), (''response'', JStr t)]
     \<Longrightarrow> length t \<le> 300"
  by (auto simp: executed_outcome_def)

text \<open>
  Claim C7. Every stored detail should be cut to 300 characters. The echoed
  response body is (\<open>executed_detail_bounded\<close>); the message of an exception
  is stored whole: a failure message of 301 characters gives a detail of 301
  characters.
\<close>

theorem error_detail_not_truncated:
  "remediate_action verbose_failure_post ''https://remediation.example/api'' None () low_risk_action =
     Inr (JObj [(''action'', JStr ''restart_service''),
                (''status'', JStr ''error''),
                (''response'', JStr (replicate 301 (CHR ''x'')))], ()) \<and>
   length (replicate 301 (CHR ''x'')) = 301"
  by (simp add: remediate_action_def low_risk_action_def get_def get_default_def risk_of_def
      lower_literals verbose_failure_post_def)

section \<open>Appending the results\<close>

lemma map_of_dict_set: "map_of (dict_set k v kvs) = (map_of kvs)(k \<mapsto> v)"
  by (induction kvs) (auto simp: fun_eq_iff)

lemma map_of_setdefault:
  "map_of (setdefault k v kvs) k' =
     (if k' = k then Some (case map_of kvs k of None \<Rightarrow> v | Some x \<Rightarrow> x) else map_of kvs k')"
  by (simp add: setdefault_def map_of_dict_set split: option.splits)

lemma result_action_Inr_iff:
  "(result_action str_other r = Inr a) =
     (\<exists>d v. r = JObj d \<and> map_of d ''action'' = Some v \<and>
        a = JObj [(''name'', JStr (''result:'' @ format_value str_other v)),
                  (''params'', r),
                  (''risk'', JStr ''n/a'')])"
  by (cases r) (auto simp: result_action_def split: option.splits)

lemma result_actions_Inr:
  "result_actions str_other rs = Inr new \<Longrightarrow>
     list_all2 (\<lambda>r a. result_action str_other r = Inr a) rs new"
proof (induction rs arbitrary: new)
  case Nil
  then show ?case by simp
next
  case (Cons r rs)
  from Cons.prems obtain a as where
    "result_action str_other r = Inr a" "result_actions str_other rs = Inr as" "new = a # as"
    by (auto split: sum.splits)
  with Cons.IH [of as] show ?case by simp
qed

lemma result_actions_total:
  assumes "\<forall>r\<in>set rs. \<exists>d a. r = JObj d \<and> map_of d ''action'' = Some a"
  shows "\<exists>new. result_actions str_other rs = Inr new \<and> length new = length rs"
  using assms
proof (induction rs)
  case Nil
  show ?case by simp
next
  case (Cons r rs)
  from Cons.prems obtain d a where "r = JObj d" "map_of d ''action'' = Some a"
    by auto
  then obtain x where x: "result_action str_other r = Inr x"
    by (simp add: result_action_def)
  from Cons obtain new where "result_actions str_other rs = Inr new" "length new = length rs"
    by auto
  with x show ?case by simp
qed

lemma result_action_not_called:
  assumes "result_action str_other r = Inr a"
  shows "dispatchable a" "classify a = Inr RequireApproval" "\<not> calls_executor url a"
  using assms
  by (auto simp: result_action_Inr_iff dispatchable_def classify_def risk_of_def get_JObj
      lower_literals calls_executor_def)

lemma get_default_actions_cases:
  assumes "get_default plan ''actions'' (JArr []) = Inr (JArr xs)"
  shows "\<exists>kvs. plan = JObj kvs \<and>
           (case map_of kvs ''actions'' of None \<Rightarrow> JArr [] | Some x \<Rightarrow> x) = JArr xs"
  using assms by (cases plan) (auto simp: get_default_def split: option.splits)

lemma enrich_plan_eq:
  assumes "(case map_of kvs ''actions'' of None \<Rightarrow> JArr [] | Some x \<Rightarrow> x) = JArr xs"
    and "result_actions str_other results = Inr new"
    and "results \<noteq> []"
  shows "enrich_plan str_other (JObj kvs) results =
           Inr (JObj (dict_set ''actions'' (JArr (xs @ new))
                        (setdefault ''actions'' (JArr []) kvs)))"
  using assms by (simp add: enrich_plan_def map_of_setdefault)

lemma enrich_plan_nonempty:
  assumes "enrich_plan str_other plan results = Inr plan'" and "results \<noteq> []"
  shows "\<exists>kvs xs new. plan = JObj kvs \<and>
           (case map_of kvs ''actions'' of None \<Rightarrow> JArr [] | Some x \<Rightarrow> x) = JArr xs \<and>
           result_actions str_other results = Inr new \<and>
           plan' = JObj (dict_set ''actions'' (JArr (xs @ new))
                           (setdefault ''actions'' (JArr []) kvs))"
  using assms
  by (cases plan)
     (auto simp: enrich_plan_def map_of_setdefault Let_def split: sum.splits json.splits)

lemma get_default_enriched:
  "get_default (JObj (dict_set ''actions'' v (setdefault ''actions'' (JArr []) kvs))) k d =
     (if k = ''actions'' then Inr v else get_default (JObj kvs) k d)"
  by (simp add: get_default_JObj map_of_dict_set map_of_setdefault)

text \<open>
  In \<^verbatim>\<open>main\<close> the results are those of dispatching the same plan; then
  appending them never raises.
\<close>

lemma enrich_after_dispatch:
  assumes "maybe_remediate post w plan url key = Inr (rs, w')"
  shows "\<exists>plan'. enrich_plan str_other plan rs = Inr plan'"
proof (cases "rs = []")
  case True
  then show ?thesis by (simp add: enrich_plan_def)
next
  case False
  from assms obtain v acts where
    v: "get_default plan ''actions'' (JArr []) = Inr v" and
    it: "py_iter v = Inr acts" and
    loop: "remediate_loop post url key [] w acts = Inr (rs, w')"
    by (auto simp: maybe_remediate_def split: sum.splits)
  from remediate_loop_length [OF loop] False have ne: "acts \<noteq> []"
    by auto
  from remediate_loop_Inr [OF loop] have
    disp: "\<forall>a\<in>set acts. dispatchable a" and
    outs: "\<forall>r\<in>set rs. \<exists>d a. r = JObj d \<and> map_of d ''action'' = Some a"
    by blast+
  from py_iter_dispatchable [OF it ne disp] v
  have "get_default plan ''actions'' (JArr []) = Inr (JArr acts)"
    by simp
  from get_default_actions_cases [OF this] obtain kvs where
    "plan = JObj kvs"
    "(case map_of kvs ''actions'' of None \<Rightarrow> JArr [] | Some x \<Rightarrow> x) = JArr acts"
    by blast
  moreover from result_actions_total [OF outs, of str_other] obtain new where
    "result_actions str_other rs = Inr new"
    by blast
  ultimately show ?thesis
    using enrich_plan_eq [of kvs acts str_other rs new] False by simp
qed

lemma remediate_and_enrich_returns:
  "(\<exists>e. remediate_and_enrich str_other post w plan url key = Inl e) =
   (\<exists>e. maybe_remediate post w plan url key = Inl e)"
proof (cases "maybe_remediate post w plan url key")
  case (Inl e)
  then show ?thesis by (simp add: remediate_and_enrich_def)
next
  case (Inr p)
  obtain rs w' where p: "p = (rs, w')" by (cases p)
  from enrich_after_dispatch [of post w plan url key rs w' str_other] Inr p
  obtain plan' where "enrich_plan str_other plan rs = Inr plan'" by auto
  then show ?thesis
    by (simp add: remediate_and_enrich_def Inr p)
qed

text \<open>
  Claim C3. For a plan whose \<^verbatim>\<open>actions\<close> are a list (or absent, read as
  the empty list) and outcomes that are dicts with an \<^verbatim>\<open>action\<close> key, the
  enriched plan's actions have the length of the old actions plus the number
  of outcomes, they begin with the old actions, and every other key of the
  plan (so \<^verbatim>\<open>rca_summary\<close>, \<^verbatim>\<open>confidence\<close> and \<^verbatim>\<open>evidence\<close>) reads as
  before. With no outcomes the plan is returned as it is.
\<close>

theorem enrich_plan_frame:
  assumes "get_default plan ''actions'' (JArr []) = Inr (JArr xs)"
    and "\<forall>r\<in>set results. \<exists>d a. r = JObj d \<and> map_of d ''action'' = Some a"
  shows "enrich_plan str_other plan [] = Inr plan \<and>
         (\<exists>plan' ys. enrich_plan str_other plan results = Inr plan' \<and>
            get_default plan' ''actions'' (JArr []) = Inr (JArr ys) \<and>
            length ys = length xs + length results \<and>
            take (length xs) ys = xs \<and>
            (\<forall>k d. k \<noteq> ''actions'' \<longrightarrow> get_default plan' k d = get_default plan k d))"
proof (cases "results = []")
  case True
  then show ?thesis
    using assms(1) by (simp add: enrich_plan_def)
next
  case False
  from get_default_actions_cases [OF assms(1)] obtain kvs where
    plan: "plan = JObj kvs" and
    old: "(case map_of kvs ''actions'' of None \<Rightarrow> JArr [] | Some x \<Rightarrow> x) = JArr xs"
    by blast
  from result_actions_total [OF assms(2), of str_other] obtain new where
    new: "result_actions str_other results = Inr new" and len: "length new = length results"
    by blast
  let ?plan' = "JObj (dict_set ''actions'' (JArr (xs @ new)) (setdefault ''actions'' (JArr []) kvs))"
  have e: "enrich_plan str_other plan results = Inr ?plan'"
    unfolding plan by (rule enrich_plan_eq [OF old new False])
  have a: "get_default ?plan' ''actions'' (JArr []) = Inr (JArr (xs @ new))"
    by (simp add: get_default_enriched)
  have f: "\<forall>k d. k \<noteq> ''actions'' \<longrightarrow> get_default ?plan' k d = get_default plan k d"
    by (simp add: get_default_enriched plan)
  have "enrich_plan str_other plan [] = Inr plan"
    by (simp add: enrich_plan_def)
  moreover have "length (xs @ new) = length xs + length results" "take (length xs) (xs @ new) = xs"
    by (simp_all add: len)
  ultimately show ?thesis
    using e a f by blast
qed

theorem enrich_plan_frame_witness:
  "get_default reviewed_plan ''actions'' (JArr []) = Inr (JArr [high_risk_action]) \<and>
   (\<exists>d a. skipped_outcome (JStr ''scale_db'') = JObj d \<and> map_of d ''action'' = Some a) \<and>
   enrich_plan str_of_none reviewed_plan [skipped_outcome (JStr ''scale_db'')] =
     Inr reviewed_plan_enriched \<and>
   get_default reviewed_plan_enriched ''rca_summary'' JNull = Inr (JStr ''disk full'')"
proof -
  have a: "get_default reviewed_plan ''actions'' (JArr []) = Inr (JArr [high_risk_action])"
    by (simp add: reviewed_plan_def get_default_JObj)
  have b: "\<forall>r\<in>set [skipped_outcome (JStr ''scale_db'')].
      \<exists>d a. r = JObj d \<and> map_of d ''action'' = Some a"
    by (simp add: skipped_outcome_def)
  have c: "enrich_plan str_of_none reviewed_plan [skipped_outcome (JStr ''scale_db'')] =
     Inr reviewed_plan_enriched"
    by (simp add: enrich_plan_def reviewed_plan_def reviewed_plan_enriched_def setdefault_def
        result_action_def skipped_outcome_def format_value_def)
  from enrich_plan_frame [OF a b, of str_of_none] c
  have "get_default reviewed_plan_enriched ''rca_summary'' JNull =
        get_default reviewed_plan ''rca_summary'' JNull"
    by auto
  then show ?thesis
    using a b c by (simp add: reviewed_plan_def get_default_JObj)
qed

text \<open>
  Claim C4. Every action that enrichment appends is named \<^verbatim>\<open>result:\<close>
  followed by the outcome's action name, has the risk tag \<^verbatim>\<open>n/a\<close>, and
  is classified as requiring approval. Dispatching the enriched plan gives
  what dispatching the plan gives, followed by one skipped outcome per
  appended action, and leaves the world as dispatching the plan leaves it: no
  request is sent for a result record.
\<close>

theorem result_records_never_redispatched:
  assumes "enrich_plan str_other plan results = Inr plan'"
  shows "\<exists>new. result_actions str_other results = Inr new \<and> length new = length results \<and>
           (\<forall>i<length results. \<exists>d v.
              results ! i = JObj d \<and> map_of d ''action'' = Some v \<and>
              get (new ! i) ''name'' = Inr (JStr (''result:'' @ format_value str_other v)) \<and>
              (\<forall>s. v = JStr s \<longrightarrow> get (new ! i) ''name'' = Inr (JStr (''result:'' @ s))) \<and>
              get (new ! i) ''risk'' = Inr (JStr ''n/a'') \<and>
              classify (new ! i) = Inr RequireApproval) \<and>
           maybe_remediate post w plan' url key =
             (case maybe_remediate post w plan url key of
                Inl e \<Rightarrow> Inl e
              | Inr (rs, w') \<Rightarrow> Inr (rs @ map (\<lambda>a. skipped_outcome (action_name a)) new, w'))"
proof (cases "results = []")
  case True
  with assms have "plan' = plan"
    by (simp add: enrich_plan_def)
  with True show ?thesis
    by (simp split: sum.splits)
next
  case False
  from enrich_plan_nonempty [OF assms False] obtain kvs xs new where
    plan: "plan = JObj kvs" and
    old: "(case map_of kvs ''actions'' of None \<Rightarrow> JArr [] | Some x \<Rightarrow> x) = JArr xs" and
    new: "result_actions str_other results = Inr new" and
    plan': "plan' = JObj (dict_set ''actions'' (JArr (xs @ new))
                           (setdefault ''actions'' (JArr []) kvs))"
    by blast
  have all2: "list_all2 (\<lambda>r a. result_action str_other r = Inr a) results new"
    by (rule result_actions_Inr [OF new])
  then have len: "length new = length results"
    by (simp add: list_all2_lengthD)
  have each: "\<exists>d v.
      results ! i = JObj d \<and> map_of d ''action'' = Some v \<and>
      get (new ! i) ''name'' = Inr (JStr (''result:'' @ format_value str_other v)) \<and>
      (\<forall>s. v = JStr s \<longrightarrow> get (new ! i) ''name'' = Inr (JStr (''result:'' @ s))) \<and>
      get (new ! i) ''risk'' = Inr (JStr ''n/a'') \<and>
      classify (new ! i) = Inr RequireApproval"
    if "i < length results" for i
  proof -
    from list_all2_nthD [OF all2 that]
    have r: "result_action str_other (results ! i) = Inr (new ! i)"
      by simp
    then obtain d v where
      "results ! i = JObj d" "map_of d ''action'' = Some v"
      "new ! i = JObj [(''name'', JStr (''result:'' @ format_value str_other v)),
                       (''params'', results ! i),
                       (''risk'', JStr ''n/a'')]"
      unfolding result_action_Inr_iff by blast
    moreover note result_action_not_called(2) [OF r]
    ultimately show ?thesis
      by (simp add: get_JObj format_value_def)
  qed
  have skip: "\<forall>a\<in>set new. dispatchable a \<and> \<not> calls_executor url a"
  proof
    fix a assume "a \<in> set new"
    then obtain i where "i < length new" "new ! i = a"
      by (auto simp: in_set_conv_nth)
    with all2 have "result_action str_other (results ! i) = Inr a"
      by (auto simp: list_all2_conv_all_nth)
    then show "dispatchable a \<and> \<not> calls_executor url a"
      using result_action_not_called by blast
  qed
  have before: "maybe_remediate post w plan url key = remediate_loop post url key [] w xs"
    by (simp add: maybe_remediate_def plan get_default_JObj old)
  have after: "maybe_remediate post w plan' url key = remediate_loop post url key [] w (xs @ new)"
    by (simp add: maybe_remediate_def plan' get_default_enriched)
  have "maybe_remediate post w plan' url key =
          (case maybe_remediate post w plan url key of
             Inl e \<Rightarrow> Inl e
           | Inr (rs, w') \<Rightarrow> Inr (rs @ map (\<lambda>a. skipped_outcome (action_name a)) new, w'))"
    unfolding before after
    by (simp add: remediate_loop_append remediate_loop_not_called [OF skip]
        split: sum.splits prod.splits)
  with new len each show ?thesis
    by blast
qed

theorem result_records_never_redispatched_witness:
  "enrich_plan str_of_none reviewed_plan [skipped_outcome (JStr ''scale_db'')] =
     Inr reviewed_plan_enriched \<and>
   maybe_remediate denying_post () reviewed_plan_enriched ''https://remediation.example/api'' None =
     Inr ([skipped_outcome (JStr ''scale_db''), skipped_outcome (JStr ''result:scale_db'')], ())"
proof -
  have c: "enrich_plan str_of_none reviewed_plan [skipped_outcome (JStr ''scale_db'')] =
     Inr reviewed_plan_enriched"
    by (simp add: enrich_plan_def reviewed_plan_def reviewed_plan_enriched_def setdefault_def
        result_action_def skipped_outcome_def format_value_def)
  have n: "result_actions str_of_none [skipped_outcome (JStr ''scale_db'')] =
     Inr [JObj [(''name'', JStr ''result:scale_db''),
                (''params'', skipped_outcome (JStr ''scale_db'')),
                (''risk'', JStr ''n/a'')]]"
    by (simp add: result_action_def skipped_outcome_def format_value_def)
  have d: "maybe_remediate denying_post () reviewed_plan ''https://remediation.example/api'' None =
     Inr ([skipped_outcome (JStr ''scale_db'')], ())"
    by (simp add: maybe_remediate_def reviewed_plan_def high_risk_action_def get_JObj
        get_default_JObj remediate_action_def risk_of_def lower_literals skipped_outcome_def)
  from result_records_never_redispatched [OF c, of denying_post "()"
      "''https://remediation.example/api''" None]
  obtain new where
    rn: "result_actions str_of_none [skipped_outcome (JStr ''scale_db'')] = Inr new" and
    run: "maybe_remediate denying_post () reviewed_plan_enriched
            ''https://remediation.example/api'' None =
          (case maybe_remediate denying_post () reviewed_plan
                  ''https://remediation.example/api'' None of
             Inl e \<Rightarrow> Inl e
           | Inr (rs, w') \<Rightarrow> Inr (rs @ map (\<lambda>a. skipped_outcome (action_name a)) new, w'))"
    by blast
  from rn n have "new = [JObj [(''name'', JStr ''result:scale_db''),
                               (''params'', skipped_outcome (JStr ''scale_db'')),
                               (''risk'', JStr ''n/a'')]]"
    by simp
  with run d c show ?thesis
    by (simp add: action_name_def get_JObj)
qed

section \<open>Action guard\<close>

text \<open>
  The decision of the guard on a body that is a dict whose \<^verbatim>\<open>action\<close> is
  falsy or hashable: 403 with the whole whitelist, or 200 echoing the action
  and the params.
\<close>

lemma guard_decision:
  assumes "req_get_json req = Some (JObj kvs)"
    and "action = (case map_of kvs ''action'' of None \<Rightarrow> JNull | Some v \<Rightarrow> v)"
    and "\<not> truthy action \<or> (\<forall>xs. action \<noteq> JArr xs) \<and> (\<forall>d. action \<noteq> JObj d)"
  shows "remediation_main safe req =
     Inr (if \<not> truthy action \<or> (\<forall>s. action = JStr s \<longrightarrow> s \<notin> set safe)
          then \<lparr> reply_status = 403, reply_mimetype = ''application/json'',
                 reply_body = JObj [(''status'', JStr ''denied''),
                                    (''reason'', JStr ''unsafe or unknown action''),
                                    (''allowed_actions'', JArr (map JStr safe))] \<rparr>
          else \<lparr> reply_status = 200, reply_mimetype = ''application/json'',
                 reply_body = JObj [(''status'', JStr ''ok''),
                                    (''action'', action),
                                    (''params'', case map_of kvs ''params'' of None \<Rightarrow> JObj [] | Some v \<Rightarrow> v),
                                    (''message'', JStr ''Action executed (simulation).'')] \<rparr>)"
  using assms(3) unfolding assms(2)
  by (cases "case map_of kvs ''action'' of None \<Rightarrow> JNull | Some v \<Rightarrow> v")
     (auto simp: remediation_main_def assms(1) get_JObj get_default_JObj)

text \<open>
  The list that a denial discloses has, as a set, the elements of the
  whitelist, in whatever order the set is iterated.
\<close>

lemma whitelist_order_set: "set whitelist_order = SAFE_ACTIONS"
  by (auto simp: whitelist_order_def SAFE_ACTIONS_def)

lemma denial_discloses_whitelist:
  assumes "set safe = SAFE_ACTIONS"
  shows "set (map JStr safe) = JStr ` SAFE_ACTIONS"
  using assms by simp

text \<open>
  Claim C2. For every request with a parseable body the guard should answer
  403 when the action is not in the whitelist. When the action is a non-empty
  list, the membership test hashes it and raises TypeError: no reply is built.
\<close>

theorem guard_raises_on_list_action:
  "remediation_main whitelist_order list_action_request = Inl TypeError"
  by (simp add: remediation_main_def list_action_request_def get_def get_default_def)

text \<open>
  Claim C8. A request whose body \<^verbatim>\<open>get_json\<close> cannot parse gets the reply
  400 with status \<^verbatim>\<open>error\<close> and message \<^verbatim>\<open>Invalid JSON.\<close>, whatever the
  whitelist is: the whitelist is not consulted.
\<close>

theorem guard_invalid_json:
  "remediation_main safe (req\<lparr>req_get_json := None\<rparr>) =
     Inr \<lparr> reply_status = 400, reply_mimetype = ''application/json'',
           reply_body = JObj [(''status'', JStr ''error''), (''message'', JStr ''Invalid JSON.'')] \<rparr>"
  by (simp add: remediation_main_def)

section \<open>The agent's entry point\<close>

text \<open>
  Claim C10. A request that is not a POST, or whose body \<^verbatim>\<open>get_json\<close>
  cannot parse, is read as the empty body: nothing is raised, the question is
  the default question and the incident context the default one, whose service
  is \<^verbatim>\<open>unknown-service\<close>.
\<close>

theorem main_defaults_on_unparseable:
  assumes "req_method req \<noteq> ''POST'' \<or> req_get_json req = None"
  shows "main_body req = JObj [] \<and>
         main_inputs now req = Inr (JStr default_question, default_incident now) \<and>
         get (default_incident now) ''service_name'' = Inr (JStr ''unknown-service'')"
proof -
  from assms have b: "main_body req = JObj []"
    by (auto simp: main_body_def)
  have "get (default_incident now) ''service_name'' = Inr (JStr ''unknown-service'')"
    by (simp add: default_incident_def get_JObj)
  then show ?thesis
    by (simp add: b main_inputs_def get_default_JObj)
qed

theorem main_defaults_on_unparseable_witness:
  "req_get_json \<lparr> req_method = ''POST'', req_get_json = None \<rparr> = None \<and>
   main_inputs ''2024-05-01T10:00:00'' \<lparr> req_method = ''POST'', req_get_json = None \<rparr> =
     Inr (JStr ''Why did latency spike in the last 30 minutes?'',
          default_incident ''2024-05-01T10:00:00'')"
  using main_defaults_on_unparseable
    [of "\<lparr> req_method = ''POST'', req_get_json = None \<rparr>" "''2024-05-01T10:00:00''"]
  by (simp add: default_question_def)

end
